theory Spec2Isabelle
  imports Main
begin

section \<open>Qola: a programmatic SQL statement assembler\<close>

text \<open>
  A shallow embedding of \<^verbatim>\<open>qola.py\<close>. Python strings are \<^typ>\<open>string\<close>, Python lists are
  HOL lists, and the classes are records whose fields carry the class name as a prefix
  (record fields are global constants in HOL). The private methods \<^verbatim>\<open>Database._x\<close> are
  named \<open>db_x\<close>, since an identifier cannot start with an underscore.
\<close>

subsection \<open>Values and string helpers\<close>

text \<open>
  The scalar values that are bound as statement parameters. \<open>PNone\<close> is Python's
  \<^verbatim>\<open>None\<close>.
\<close>

datatype pyval = PNone | PStr string | PInt int

text \<open>
  Several methods take "a value or a list of values" and normalise it with
  \<^verbatim>\<open>to_list\<close>: \<^verbatim>\<open>val if type(val) is list else [val]\<close>.
\<close>

datatype 'a arg = Scalar 'a | Listed "'a list"

fun to_list :: "'a arg \<Rightarrow> 'a list" where
  "to_list (Listed xs) = xs"
| "to_list (Scalar x) = [x]"

text \<open>\<^verbatim>\<open>sep.join(xs)\<close>\<close>

fun join :: "string \<Rightarrow> string list \<Rightarrow> string" where
  "join sep [] = []"
| "join sep [x] = x"
| "join sep (x # y # ys) = x @ sep @ join sep (y # ys)"

text \<open>
  \<^verbatim>\<open>str.strip()\<close> removes leading and trailing whitespace: space, tab, line feed,
  vertical tab, form feed and carriage return.
\<close>

definition is_space :: "char \<Rightarrow> bool" where
  "is_space c = (c = CHR '' '' \<or> c = CHR 0x09 \<or> c = CHR 0x0A \<or> c = CHR 0x0B
                 \<or> c = CHR 0x0C \<or> c = CHR 0x0D)"

definition strip :: "string \<Rightarrow> string" where
  "strip s = rev (dropWhile is_space (rev (dropWhile is_space s)))"

text \<open>\<^verbatim>\<open>s.rjust(n)\<close> pads \<open>s\<close> with spaces on the left up to width \<open>n\<close>.\<close>

definition rjust :: "nat \<Rightarrow> string \<Rightarrow> string" where
  "rjust n s = replicate (n - length s) (CHR '' '') @ s"

subsection \<open>Table\<close>

record Table =
  Table_name :: string
  Table_pk :: string
  Table_alias :: string

text \<open>
  \<^verbatim>\<open>alias = self.alias.strip().rjust(1) if self.alias else ''\<close>
  \<^verbatim>\<open>return '%s%s' % (self.name, alias)\<close>
\<close>

definition Table_identifier :: "Table \<Rightarrow> string" where
  "Table_identifier t =
     (let alias = (if Table_alias t \<noteq> [] then rjust 1 (strip (Table_alias t)) else [])
      in Table_name t @ alias)"

subsection \<open>Fragment accumulators\<close>

record Selector =
  Selector_cols :: "string list"

definition Selector_init :: Selector where
  "Selector_init = \<lparr>Selector_cols = []\<rparr>"

definition Selector_call :: "Selector \<Rightarrow> string list" where
  "Selector_call s = (if Selector_cols s \<noteq> [] then Selector_cols s else [''*''])"

text \<open>
  \<^verbatim>\<open>alias\<close> defaults to \<^verbatim>\<open>None\<close>; \<^verbatim>\<open>if alias:\<close> is false for \<^verbatim>\<open>None\<close> and for the
  empty string.
\<close>

definition Selector_add :: "string arg \<Rightarrow> string option \<Rightarrow> Selector \<Rightarrow> Selector" where
  "Selector_add cols alias s =
     (let cols1 = to_list cols;
          cols2 = (case alias of
                     None \<Rightarrow> cols1
                   | Some a \<Rightarrow> (if a \<noteq> [] then map (\<lambda>k. a @ ''.'' @ k) cols1 else cols1))
      in s\<lparr>Selector_cols := Selector_cols s @ cols2\<rparr>)"

record Joiner =
  Joiner_joins :: "string list"

definition Joiner_init :: Joiner where
  "Joiner_init = \<lparr>Joiner_joins = []\<rparr>"

definition Joiner_call :: "Joiner \<Rightarrow> string list" where
  "Joiner_call j = Joiner_joins j"

definition Joiner_add :: "Table \<Rightarrow> string \<Rightarrow> bool \<Rightarrow> Joiner \<Rightarrow> Joiner" where
  "Joiner_add tbl join_on outer j =
     (let join_type = (if outer then ''OUTER'' else ''INNER'')
      in j\<lparr>Joiner_joins := Joiner_joins j @ [join_type, ''JOIN'', Table_identifier tbl]\<rparr>)"

record Clauser =
  Clauser_clauses :: "string list"
  Clauser_params :: "pyval list"

definition Clauser_init :: Clauser where
  "Clauser_init = \<lparr>Clauser_clauses = [], Clauser_params = []\<rparr>"

definition Clauser_call :: "Clauser \<Rightarrow> string list" where
  "Clauser_call c = Clauser_clauses c"

definition Clauser_add :: "string \<Rightarrow> pyval arg \<Rightarrow> bool \<Rightarrow> Clauser \<Rightarrow> Clauser" where
  "Clauser_add clause params is_or c =
     (let c1 = (if Clauser_clauses c \<noteq> []
                then (let operator = (if is_or then ''OR'' else ''AND'')
                      in c\<lparr>Clauser_clauses := Clauser_clauses c @ [operator]\<rparr>)
                else c);
          c2 = c1\<lparr>Clauser_clauses := Clauser_clauses c1 @ [clause]\<rparr>
      in c2\<lparr>Clauser_params := Clauser_params c2 @ to_list params\<rparr>)"

record Orderer =
  Orderer_orders :: "string list"

definition Orderer_init :: Orderer where
  "Orderer_init = \<lparr>Orderer_orders = []\<rparr>"

definition Orderer_call :: "Orderer \<Rightarrow> string list" where
  "Orderer_call r = Orderer_orders r"

definition Orderer_add :: "string arg \<Rightarrow> Orderer \<Rightarrow> Orderer" where
  "Orderer_add order r = r\<lparr>Orderer_orders := Orderer_orders r @ to_list order\<rparr>"

text \<open>
  The limiter keeps its limits as strings. Only its state and its read operation are
  modelled: \<^verbatim>\<open>Limiter.add\<close> replaces the list by the \<^verbatim>\<open>str\<close> of each given limit.
\<close>

record Limiter =
  Limiter_limits :: "string list"

definition Limiter_init :: Limiter where
  "Limiter_init = \<lparr>Limiter_limits = []\<rparr>"

definition Limiter_call :: "Limiter \<Rightarrow> string list" where
  "Limiter_call l = Limiter_limits l"

subsection \<open>Expr and Setter\<close>

record Expr =
  Expr_value :: string
  Expr_params :: "pyval list"

text \<open>
  The argument of \<^verbatim>\<open>Setter.add\<close> is either an \<^verbatim>\<open>Expr\<close> instance or any other value
  (\<^verbatim>\<open>isinstance(value, Expr)\<close>).
\<close>

datatype setval = IsExpr Expr | Plain pyval

text \<open>
  The setter holds a dict. It is modelled by its items in iteration order, with unique
  keys: \<^verbatim>\<open>d[k] = v\<close> replaces the value of a key that is present, in place, and adds
  a new key at the end. The source is Python 2, where a dict iterates in the order of
  its hash table and not in the order of insertion. The general statements below are
  about the items of the setter in whatever order they iterate; the closed examples set
  their keys in an order in which the hash table and the order of insertion agree.
\<close>

fun dict_setitem :: "'k \<Rightarrow> 'v \<Rightarrow> ('k \<times> 'v) list \<Rightarrow> ('k \<times> 'v) list" where
  "dict_setitem k v [] = [(k, v)]"
| "dict_setitem k v ((k', v') # kvs) =
     (if k' = k then (k, v) # kvs else (k', v') # dict_setitem k v kvs)"

record Setter =
  Setter_items :: "(string \<times> Expr) list"

definition Setter_init :: Setter where
  "Setter_init = \<lparr>Setter_items = []\<rparr>"

definition Setter_call :: "Setter \<Rightarrow> (string \<times> Expr) list" where
  "Setter_call s = Setter_items s"

definition Setter_add :: "string \<Rightarrow> setval \<Rightarrow> Setter \<Rightarrow> Setter" where
  "Setter_add key val s =
     (let param = (case val of
                     IsExpr e \<Rightarrow> e
                   | Plain v \<Rightarrow> \<lparr>Expr_value = ''?'', Expr_params = [v]\<rparr>)
      in s\<lparr>Setter_items := dict_setitem key param (Setter_items s)\<rparr>)"

subsection \<open>The query builder\<close>

record Q =
  Q_table :: Table
  Q_selector :: Selector
  Q_joiner :: Joiner
  Q_clauser :: Clauser
  Q_orderer :: Orderer
  Q_limiter :: Limiter
  Q_setter :: Setter

text \<open>
  \<^verbatim>\<open>Q.__init__\<close> instantiates the table class without arguments, so the table of a
  builder has the empty alias; \<open>tbl_name\<close> and \<open>tbl_pk\<close> are the class attributes.
\<close>

definition Q_init :: "string \<Rightarrow> string \<Rightarrow> Q" where
  "Q_init tbl_name tbl_pk =
     \<lparr>Q_table = \<lparr>Table_name = tbl_name, Table_pk = tbl_pk, Table_alias = []\<rparr>,
      Q_selector = Selector_init, Q_joiner = Joiner_init, Q_clauser = Clauser_init,
      Q_orderer = Orderer_init, Q_limiter = Limiter_init, Q_setter = Setter_init\<rparr>"

definition Q_select :: "string arg \<Rightarrow> string option \<Rightarrow> Q \<Rightarrow> Q" where
  "Q_select cols alias q = q\<lparr>Q_selector := Selector_add cols alias (Q_selector q)\<rparr>"

definition Q_join :: "Table \<Rightarrow> string \<Rightarrow> bool \<Rightarrow> Q \<Rightarrow> Q" where
  "Q_join tbl join_on outer q = q\<lparr>Q_joiner := Joiner_add tbl join_on outer (Q_joiner q)\<rparr>"

definition Q_where :: "string \<Rightarrow> pyval arg \<Rightarrow> bool \<Rightarrow> Q \<Rightarrow> Q" where
  "Q_where clause params is_or q =
     q\<lparr>Q_clauser := Clauser_add clause params is_or (Q_clauser q)\<rparr>"

definition Q_key :: "pyval arg \<Rightarrow> Q \<Rightarrow> Q" where
  "Q_key val q = Q_where (Table_pk (Q_table q) @ '' = ?'') val False q"

definition Q_order :: "string arg \<Rightarrow> Q \<Rightarrow> Q" where
  "Q_order order q = q\<lparr>Q_orderer := Orderer_add order (Q_orderer q)\<rparr>"

definition Q_set :: "string \<Rightarrow> setval \<Rightarrow> Q \<Rightarrow> Q" where
  "Q_set key val q = q\<lparr>Q_setter := Setter_add key val (Q_setter q)\<rparr>"

subsection \<open>The translator\<close>

text \<open>\<^verbatim>\<open>[None if v == '' else v for v in values]\<close>\<close>

definition db_list_null :: "pyval list \<Rightarrow> pyval list" where
  "db_list_null values = map (\<lambda>v. if v = PStr [] then PNone else v) values"

text \<open>
  The helpers that take \<^verbatim>\<open>parts\<close> extend that list in place; here they return the
  extended list.
\<close>

definition db_select :: "string list \<Rightarrow> string list" where
  "db_select cols = [''SELECT'', join '','' cols]"

definition db_from :: "string list \<Rightarrow> Table \<Rightarrow> string list" where
  "db_from parts tbl = parts @ [''FROM'', Table_identifier tbl]"

definition db_join :: "string list \<Rightarrow> string list \<Rightarrow> string list" where
  "db_join parts joins = (if joins \<noteq> [] then parts @ joins else parts)"

definition db_where :: "string list \<Rightarrow> string list \<Rightarrow> string list" where
  "db_where parts clauses =
     (if clauses \<noteq> [] then parts @ [''WHERE'', join '' '' clauses] else parts)"

definition db_order :: "string list \<Rightarrow> string list \<Rightarrow> string list" where
  "db_order parts orders =
     (if orders \<noteq> [] then parts @ [''ORDER BY'', join '','' orders] else parts)"

definition db_limit :: "string list \<Rightarrow> string list \<Rightarrow> string list" where
  "db_limit parts limits =
     (if limits \<noteq> [] then parts @ [''LIMIT'', join '','' limits] else parts)"

definition db_insert :: "Table \<Rightarrow> string list \<Rightarrow> string list" where
  "db_insert tbl cols = [''INSERT'', ''INTO'', Table_name tbl, ''('' @ join '','' cols @ '')'']"

definition db_values :: "string list \<Rightarrow> string list \<Rightarrow> string list" where
  "db_values parts vals = parts @ [''VALUES'', ''('' @ join '','' vals @ '')'']"

definition db_update :: "Table \<Rightarrow> string list" where
  "db_update tbl = [''UPDATE'', Table_identifier tbl]"

definition db_set :: "string list \<Rightarrow> string list \<Rightarrow> string list" where
  "db_set parts cols = parts @ [''SET'', join '','' cols]"

definition db_delete :: "string list" where
  "db_delete = [''DELETE'']"

definition build_select :: "Q \<Rightarrow> string \<times> pyval list" where
  "build_select qry =
     (let parts = db_select (Selector_call (Q_selector qry));
          parts = db_from parts (Q_table qry);
          parts = db_join parts (Joiner_call (Q_joiner qry));
          parts = db_where parts (Clauser_call (Q_clauser qry));
          parts = db_order parts (Orderer_call (Q_orderer qry));
          parts = db_limit parts (Limiter_call (Q_limiter qry))
      in (join '' '' parts, Clauser_params (Q_clauser qry)))"

text \<open>
  The loop of \<^verbatim>\<open>_build_insert\<close> over the setter's items, on its three accumulators
  \<^verbatim>\<open>cols\<close>, \<^verbatim>\<open>vals\<close> and \<^verbatim>\<open>params\<close>.
\<close>

fun insert_loop ::
  "(string \<times> Expr) list \<Rightarrow> string list \<times> string list \<times> pyval list
     \<Rightarrow> string list \<times> string list \<times> pyval list" where
  "insert_loop [] acc = acc"
| "insert_loop ((c, q) # items) (cols, vals, params) =
     insert_loop items (cols @ [c], vals @ [''?''], params @ Expr_params q)"

definition build_insert :: "Q \<Rightarrow> string \<times> pyval list" where
  "build_insert qry =
     (case insert_loop (Setter_call (Q_setter qry)) ([], [], []) of
        (cols, vals, params) \<Rightarrow>
          (let params = db_list_null params;
               parts = db_insert (Q_table qry) cols;
               parts = db_values parts vals
           in (join '' '' parts, params)))"

text \<open>
  The loop of \<^verbatim>\<open>_build_update\<close>, on its accumulators \<^verbatim>\<open>cols\<close> and \<^verbatim>\<open>vals\<close>.
\<close>

fun update_loop ::
  "(string \<times> Expr) list \<Rightarrow> string list \<times> pyval list \<Rightarrow> string list \<times> pyval list" where
  "update_loop [] acc = acc"
| "update_loop ((c, q) # items) (cols, vals) =
     update_loop items (cols @ [c @ '' = '' @ Expr_value q], vals @ Expr_params q)"

definition build_update :: "Q \<Rightarrow> string \<times> pyval list" where
  "build_update qry =
     (case update_loop (Setter_call (Q_setter qry)) ([], []) of
        (cols, vals) \<Rightarrow>
          (let parts = db_update (Q_table qry);
               parts = db_set parts cols;
               parts = db_join parts (Joiner_call (Q_joiner qry));
               parts = db_where parts (Clauser_call (Q_clauser qry));
               params = db_list_null (Clauser_params (Q_clauser qry))
           in (join '' '' parts, vals @ params)))"

definition build_delete :: "Q \<Rightarrow> string \<times> pyval list" where
  "build_delete qry =
     (let parts = db_delete;
          parts = db_from parts (Q_table qry);
          parts = db_join parts (Joiner_call (Q_joiner qry));
          parts = db_where parts (Clauser_call (Q_clauser qry))
      in (join '' '' parts, Clauser_params (Q_clauser qry)))"

text \<open>
  \<^verbatim>\<open>assemble\<close> formats the name \<^verbatim>\<open>'_build_%s' % mode\<close> and looks it up with
  \<^verbatim>\<open>getattr\<close>, which raises \<^verbatim>\<open>AttributeError\<close> for a name the object does not have.
  The only attributes of a \<^verbatim>\<open>Database\<close> whose names start with \<^verbatim>\<open>_build_\<close> are the
  four builders. \<open>UnsupportedMode\<close> is the error the specification names; no path
  of the source raises it.
\<close>

datatype error = AttributeError string | UnsupportedMode

definition db_getattr :: "string \<Rightarrow> (Q \<Rightarrow> string \<times> pyval list) option" where
  "db_getattr attr =
     (if attr = ''_build_select'' then Some build_select
      else if attr = ''_build_insert'' then Some build_insert
      else if attr = ''_build_update'' then Some build_update
      else if attr = ''_build_delete'' then Some build_delete
      else None)"

definition assemble :: "Q \<Rightarrow> string \<Rightarrow> error + string \<times> pyval list" where
  "assemble qry mode =
     (let builder = ''_build_'' @ mode
      in case db_getattr builder of
           None \<Rightarrow> Inl (AttributeError builder)
         | Some f \<Rightarrow> Inr (f qry))"

definition recognized_modes :: "string list" where
  "recognized_modes = [''select'', ''insert'', ''update'', ''delete'']"

subsection \<open>The translator on a heap of list objects\<close>

text \<open>
  The translator creates lists and extends them in place, and the lists of the builder
  are objects that the caller shares with it. To state what an assembly changes, the
  translator is modelled a second time on an explicit heap of list objects: a list is
  an address, \<^verbatim>\<open>list()\<close>, a list display and a comprehension allocate the next unused
  address, and \<^verbatim>\<open>extend\<close> and \<^verbatim>\<open>append\<close> update the list at an address. The
  translator assigns no attribute, so the attributes of the builder (which list each
  accumulator holds, the setter's dict and the value of each \<^verbatim>\<open>Expr\<close>) are fixed
  references. The functions keep their names, with the suffix \<open>_h\<close>.
\<close>

type_synonym addr = nat

record heap =
  heap_strs :: "addr \<Rightarrow> string list"
  heap_vals :: "addr \<Rightarrow> pyval list"
  heap_next :: addr

definition new_strs :: "string list \<Rightarrow> heap \<Rightarrow> addr \<times> heap" where
  "new_strs xs h =
     (heap_next h, h\<lparr>heap_strs := (heap_strs h)(heap_next h := xs), heap_next := Suc (heap_next h)\<rparr>)"

definition new_vals :: "pyval list \<Rightarrow> heap \<Rightarrow> addr \<times> heap" where
  "new_vals xs h =
     (heap_next h, h\<lparr>heap_vals := (heap_vals h)(heap_next h := xs), heap_next := Suc (heap_next h)\<rparr>)"

definition extend_strs :: "addr \<Rightarrow> string list \<Rightarrow> heap \<Rightarrow> heap" where
  "extend_strs a xs h = h\<lparr>heap_strs := (heap_strs h)(a := heap_strs h a @ xs)\<rparr>"

definition extend_vals :: "addr \<Rightarrow> pyval list \<Rightarrow> heap \<Rightarrow> heap" where
  "extend_vals a xs h = h\<lparr>heap_vals := (heap_vals h)(a := heap_vals h a @ xs)\<rparr>"

text \<open>
  A builder whose lists live in the heap: every accumulator holds the address of its
  list, and each \<^verbatim>\<open>Expr\<close> of the setter holds the address of its parameter list.
\<close>

record ExprR =
  ExprR_value :: string
  ExprR_params :: addr

record QR =
  QR_table :: Table
  QR_cols :: addr
  QR_joins :: addr
  QR_clauses :: addr
  QR_params :: addr
  QR_orders :: addr
  QR_limits :: addr
  QR_items :: "(string \<times> ExprR) list"

text \<open>The value of such a builder in a heap.\<close>

definition the_Q :: "heap \<Rightarrow> QR \<Rightarrow> Q" where
  "the_Q h r =
     \<lparr>Q_table = QR_table r,
      Q_selector = \<lparr>Selector_cols = heap_strs h (QR_cols r)\<rparr>,
      Q_joiner = \<lparr>Joiner_joins = heap_strs h (QR_joins r)\<rparr>,
      Q_clauser = \<lparr>Clauser_clauses = heap_strs h (QR_clauses r),
                   Clauser_params = heap_vals h (QR_params r)\<rparr>,
      Q_orderer = \<lparr>Orderer_orders = heap_strs h (QR_orders r)\<rparr>,
      Q_limiter = \<lparr>Limiter_limits = heap_strs h (QR_limits r)\<rparr>,
      Q_setter = \<lparr>Setter_items =
        map (\<lambda>(c, e). (c, \<lparr>Expr_value = ExprR_value e,
                              Expr_params = heap_vals h (ExprR_params e)\<rparr>)) (QR_items r)\<rparr>\<rparr>"

text \<open>All the lists of the builder are allocated.\<close>

definition allocated :: "heap \<Rightarrow> QR \<Rightarrow> bool" where
  "allocated h r =
     (QR_cols r < heap_next h \<and> QR_joins r < heap_next h \<and> QR_clauses r < heap_next h \<and>
      QR_params r < heap_next h \<and> QR_orders r < heap_next h \<and> QR_limits r < heap_next h \<and>
      list_all (\<lambda>(c, e). ExprR_params e < heap_next h) (QR_items r))"

text \<open>
  \<^verbatim>\<open>Selector.__call__\<close> returns the selector's own list, or a new list \<^verbatim>\<open>['*']\<close>.
\<close>

definition Selector_call_h :: "QR \<Rightarrow> heap \<Rightarrow> addr \<times> heap" where
  "Selector_call_h r h =
     (if heap_strs h (QR_cols r) \<noteq> [] then (QR_cols r, h) else new_strs [''*''] h)"

definition db_list_null_h :: "addr \<Rightarrow> heap \<Rightarrow> addr \<times> heap" where
  "db_list_null_h values h = new_vals (db_list_null (heap_vals h values)) h"

definition db_select_h :: "addr \<Rightarrow> heap \<Rightarrow> addr \<times> heap" where
  "db_select_h cols h = new_strs [''SELECT'', join '','' (heap_strs h cols)] h"

definition db_from_h :: "addr \<Rightarrow> Table \<Rightarrow> heap \<Rightarrow> heap" where
  "db_from_h parts tbl h = extend_strs parts [''FROM'', Table_identifier tbl] h"

definition db_join_h :: "addr \<Rightarrow> addr \<Rightarrow> heap \<Rightarrow> heap" where
  "db_join_h parts joins h =
     (if heap_strs h joins \<noteq> [] then extend_strs parts (heap_strs h joins) h else h)"

definition db_where_h :: "addr \<Rightarrow> addr \<Rightarrow> heap \<Rightarrow> heap" where
  "db_where_h parts clauses h =
     (if heap_strs h clauses \<noteq> []
      then extend_strs parts [''WHERE'', join '' '' (heap_strs h clauses)] h else h)"

definition db_order_h :: "addr \<Rightarrow> addr \<Rightarrow> heap \<Rightarrow> heap" where
  "db_order_h parts orders h =
     (if heap_strs h orders \<noteq> []
      then extend_strs parts [''ORDER BY'', join '','' (heap_strs h orders)] h else h)"

definition db_limit_h :: "addr \<Rightarrow> addr \<Rightarrow> heap \<Rightarrow> heap" where
  "db_limit_h parts limits h =
     (if heap_strs h limits \<noteq> []
      then extend_strs parts [''LIMIT'', join '','' (heap_strs h limits)] h else h)"

definition db_insert_h :: "Table \<Rightarrow> addr \<Rightarrow> heap \<Rightarrow> addr \<times> heap" where
  "db_insert_h tbl cols h =
     new_strs [''INSERT'', ''INTO'', Table_name tbl, ''('' @ join '','' (heap_strs h cols) @ '')''] h"

definition db_values_h :: "addr \<Rightarrow> addr \<Rightarrow> heap \<Rightarrow> heap" where
  "db_values_h parts vals h =
     extend_strs parts [''VALUES'', ''('' @ join '','' (heap_strs h vals) @ '')''] h"

definition db_update_h :: "Table \<Rightarrow> heap \<Rightarrow> addr \<times> heap" where
  "db_update_h tbl h = new_strs [''UPDATE'', Table_identifier tbl] h"

definition db_set_h :: "addr \<Rightarrow> addr \<Rightarrow> heap \<Rightarrow> heap" where
  "db_set_h parts cols h = extend_strs parts [''SET'', join '','' (heap_strs h cols)] h"

definition db_delete_h :: "heap \<Rightarrow> addr \<times> heap" where
  "db_delete_h h = new_strs [''DELETE''] h"

text \<open>
  \<^verbatim>\<open>_build_select\<close> and \<^verbatim>\<open>_build_delete\<close> return the clauser's own parameter list;
  \<^verbatim>\<open>_build_insert\<close> and \<^verbatim>\<open>_build_update\<close> return a new list.
\<close>

definition build_select_h :: "QR \<Rightarrow> heap \<Rightarrow> (string \<times> addr) \<times> heap" where
  "build_select_h qry h0 =
     (case Selector_call_h qry h0 of (cols, h1) \<Rightarrow>
      case db_select_h cols h1 of (parts, h2) \<Rightarrow>
        (let h3 = db_from_h parts (QR_table qry) h2;
             h4 = db_join_h parts (QR_joins qry) h3;
             h5 = db_where_h parts (QR_clauses qry) h4;
             h6 = db_order_h parts (QR_orders qry) h5;
             h7 = db_limit_h parts (QR_limits qry) h6
         in ((join '' '' (heap_strs h7 parts), QR_params qry), h7)))"

fun insert_loop_h :: "(string \<times> ExprR) list \<Rightarrow> addr \<Rightarrow> addr \<Rightarrow> addr \<Rightarrow> heap \<Rightarrow> heap" where
  "insert_loop_h [] cols vals params h = h"
| "insert_loop_h ((c, q) # items) cols vals params h =
     (let h1 = extend_strs cols [c] h;
          h2 = extend_strs vals [''?''] h1;
          h3 = extend_vals params (heap_vals h2 (ExprR_params q)) h2
      in insert_loop_h items cols vals params h3)"

definition build_insert_h :: "QR \<Rightarrow> heap \<Rightarrow> (string \<times> addr) \<times> heap" where
  "build_insert_h qry h0 =
     (case new_strs [] h0 of (cols, h1) \<Rightarrow>
      case new_strs [] h1 of (vals, h2) \<Rightarrow>
      case new_vals [] h2 of (params, h3) \<Rightarrow>
        (let h4 = insert_loop_h (QR_items qry) cols vals params h3
         in case db_list_null_h params h4 of (params, h5) \<Rightarrow>
            case db_insert_h (QR_table qry) cols h5 of (parts, h6) \<Rightarrow>
              (let h7 = db_values_h parts vals h6
               in ((join '' '' (heap_strs h7 parts), params), h7))))"

fun update_loop_h :: "(string \<times> ExprR) list \<Rightarrow> addr \<Rightarrow> addr \<Rightarrow> heap \<Rightarrow> heap" where
  "update_loop_h [] cols vals h = h"
| "update_loop_h ((c, q) # items) cols vals h =
     (let h1 = extend_strs cols [c @ '' = '' @ ExprR_value q] h;
          h2 = extend_vals vals (heap_vals h1 (ExprR_params q)) h1
      in update_loop_h items cols vals h2)"

definition build_update_h :: "QR \<Rightarrow> heap \<Rightarrow> (string \<times> addr) \<times> heap" where
  "build_update_h qry h0 =
     (case new_strs [] h0 of (cols, h1) \<Rightarrow>
      case new_vals [] h1 of (vals, h2) \<Rightarrow>
        (let h3 = update_loop_h (QR_items qry) cols vals h2
         in case db_update_h (QR_table qry) h3 of (parts, h4) \<Rightarrow>
              (let h5 = db_set_h parts cols h4;
                   h6 = db_join_h parts (QR_joins qry) h5;
                   h7 = db_where_h parts (QR_clauses qry) h6
               in case db_list_null_h (QR_params qry) h7 of (params, h8) \<Rightarrow>
                  case new_vals (heap_vals h8 vals @ heap_vals h8 params) h8 of (res, h9) \<Rightarrow>
                    ((join '' '' (heap_strs h9 parts), res), h9))))"

definition build_delete_h :: "QR \<Rightarrow> heap \<Rightarrow> (string \<times> addr) \<times> heap" where
  "build_delete_h qry h0 =
     (case db_delete_h h0 of (parts, h1) \<Rightarrow>
        (let h2 = db_from_h parts (QR_table qry) h1;
             h3 = db_join_h parts (QR_joins qry) h2;
             h4 = db_where_h parts (QR_clauses qry) h3
         in ((join '' '' (heap_strs h4 parts), QR_params qry), h4)))"

definition db_getattr_h :: "string \<Rightarrow> (QR \<Rightarrow> heap \<Rightarrow> (string \<times> addr) \<times> heap) option" where
  "db_getattr_h attr =
     (if attr = ''_build_select'' then Some build_select_h
      else if attr = ''_build_insert'' then Some build_insert_h
      else if attr = ''_build_update'' then Some build_update_h
      else if attr = ''_build_delete'' then Some build_delete_h
      else None)"

definition assemble_h :: "QR \<Rightarrow> string \<Rightarrow> heap \<Rightarrow> (error + string \<times> addr) \<times> heap" where
  "assemble_h qry mode h =
     (let builder = ''_build_'' @ mode
      in case db_getattr_h builder of
           None \<Rightarrow> (Inl (AttributeError builder), h)
         | Some f \<Rightarrow> (case f qry h of (res, h') \<Rightarrow> (Inr res, h')))"

text \<open>The lists below address \<open>n\<close> are the same in both heaps.\<close>

definition same_below :: "addr \<Rightarrow> heap \<Rightarrow> heap \<Rightarrow> bool" where
  "same_below n h h' =
     (\<forall>a<n. heap_strs h' a = heap_strs h a \<and> heap_vals h' a = heap_vals h a)"

section \<open>Properties\<close>

subsection \<open>Table identifier\<close>

lemma Table_identifier_no_alias:
  "Table_identifier \<lparr>Table_name = n, Table_pk = p, Table_alias = []\<rparr> = n"
  by (simp add: Table_identifier_def)

text \<open>
  C2. The identifier of a table is its name alone when the alias is empty, and otherwise
  the name followed by the alias, separated from it. The code pads the stripped alias
  to width one, which leaves every non-empty alias as it is: for the table \<open>users\<close>
  with alias \<open>u\<close> the identifier is \<open>usersu\<close>, with no separator between name and
  alias.
\<close>

theorem Table_identifier_alias_not_separated:
  "Table_identifier \<lparr>Table_name = ''users'', Table_pk = ''id'', Table_alias = ''u''\<rparr>
     = ''usersu''"
  by (simp add: Table_identifier_def rjust_def strip_def is_space_def)

subsection \<open>Mode dispatch\<close>

lemma db_getattr_unknown:
  "mode \<notin> set recognized_modes \<Longrightarrow> db_getattr (''_build_'' @ mode) = None"
  by (auto simp: db_getattr_def recognized_modes_def)

lemma assemble_select: "assemble qry ''select'' = Inr (build_select qry)"
  by (simp add: assemble_def db_getattr_def)

lemma assemble_insert: "assemble qry ''insert'' = Inr (build_insert qry)"
  by (simp add: assemble_def db_getattr_def)

lemma assemble_update: "assemble qry ''update'' = Inr (build_update qry)"
  by (simp add: assemble_def db_getattr_def)

lemma assemble_delete: "assemble qry ''delete'' = Inr (build_delete qry)"
  by (simp add: assemble_def db_getattr_def)

text \<open>
  C1, as the specification states it: a mode outside the four recognized values fails
  with an "unsupported mode" error, without a lookup of the handler by name. The code
  has no such check: for the mode \<open>merge\<close> the error is not the unsupported-mode
  error.
\<close>

theorem assemble_not_unsupported_mode:
  "''merge'' \<notin> set recognized_modes \<and>
   assemble (Q_init ''users'' ''id'') ''merge'' \<noteq> Inl UnsupportedMode"
  by (simp add: assemble_def db_getattr_def recognized_modes_def)

text \<open>
  C1, amended: for every mode string outside the four recognized values, \<open>assemble\<close>
  fails, and the failure is the \<open>AttributeError\<close> of the lookup of the handler name
  \<^verbatim>\<open>_build_<mode>\<close>.
\<close>

theorem assemble_unknown_mode:
  "mode \<notin> set recognized_modes \<Longrightarrow>
     assemble qry mode = Inl (AttributeError (''_build_'' @ mode))"
  using db_getattr_unknown [of mode] by (simp add: assemble_def)

theorem assemble_unknown_mode_witness:
  "''merge'' \<notin> set recognized_modes \<and>
   assemble (Q_init ''users'' ''id'') ''merge'' = Inl (AttributeError ''_build_merge'')"
  using assemble_unknown_mode [of "''merge''" "Q_init ''users'' ''id''"]
  by (simp add: recognized_modes_def)

subsection \<open>The loops of insert and update\<close>

lemma insert_loop_eq:
  "insert_loop items (cols, vals, params) =
     (cols @ map fst items, vals @ replicate (length items) ''?'',
      params @ concat (map (Expr_params \<circ> snd) items))"
  by (induction items arbitrary: cols vals params) (auto simp: replicate_app_Cons_same)

lemma update_loop_eq:
  "update_loop items (cols, vals) =
     (cols @ map (\<lambda>(c, q). c @ '' = '' @ Expr_value q) items,
      vals @ concat (map (Expr_params \<circ> snd) items))"
  by (induction items arbitrary: cols vals) auto

lemma length_concat_sum: "length (concat xss) = sum_list (map length xss)"
  by (induction xss) auto

lemma snd_build_update:
  "snd (build_update qry) =
     concat (map (Expr_params \<circ> snd) (Setter_items (Q_setter qry)))
       @ db_list_null (Clauser_params (Q_clauser qry))"
  by (simp add: build_update_def update_loop_eq Setter_call_def Let_def)

lemma snd_build_insert:
  "snd (build_insert qry) =
     db_list_null (concat (map (Expr_params \<circ> snd) (Setter_items (Q_setter qry))))"
  by (simp add: build_insert_def insert_loop_eq Setter_call_def Let_def)


lemma list_null_no_empty: "PStr [] \<notin> set (db_list_null vs)"
  by (auto simp: db_list_null_def)

subsection \<open>Update parameters\<close>

text \<open>
  C3. In update mode the returned parameters are the parameters of the setter's
  expressions, in the setter's iteration order and as they are, followed by the
  clauser's parameters, in clause order, each empty string among them replaced by
  \<open>PNone\<close>; their number is the sum of the expressions' parameter counts plus the
  clauser's parameter count. Updating \<^verbatim>\<open>{'status': ''}\<close> where \<^verbatim>\<open>id = ?\<close> is the
  empty string keeps the empty string that is set and replaces the one of the clause.
\<close>

theorem update_params:
  "(\<exists>sql params. assemble qry ''update'' = Inr (sql, params) \<and>
      params = concat (map (Expr_params \<circ> snd) (Setter_items (Q_setter qry)))
                 @ map (\<lambda>v. if v = PStr [] then PNone else v)
                     (Clauser_params (Q_clauser qry)) \<and>
      length params =
        sum_list (map (length \<circ> Expr_params \<circ> snd) (Setter_items (Q_setter qry)))
          + length (Clauser_params (Q_clauser qry))) \<and>
   assemble (Q_where ''id = ?'' (Scalar (PStr [])) False
              (Q_set ''status'' (Plain (PStr [])) (Q_init ''users'' ''id''))) ''update''
     = Inr (''UPDATE users SET status = ? WHERE id = ?'', [PStr [], PNone])"
proof -
  let ?sp = "concat (map (Expr_params \<circ> snd) (Setter_items (Q_setter qry)))"
  let ?cp = "Clauser_params (Q_clauser qry)"
  have p: "snd (build_update qry) = ?sp @ map (\<lambda>v. if v = PStr [] then PNone else v) ?cp"
    by (simp add: snd_build_update db_list_null_def)
  have "length ?sp = sum_list (map (length \<circ> Expr_params \<circ> snd) (Setter_items (Q_setter qry)))"
    by (simp add: length_concat_sum comp_def)
  then have l: "length (snd (build_update qry)) =
      sum_list (map (length \<circ> Expr_params \<circ> snd) (Setter_items (Q_setter qry))) + length ?cp"
    by (simp add: p)
  have "assemble qry ''update'' = Inr (fst (build_update qry), snd (build_update qry))"
    by (simp add: assemble_update)
  with p l have a: "\<exists>sql params. assemble qry ''update'' = Inr (sql, params) \<and>
      params = ?sp @ map (\<lambda>v. if v = PStr [] then PNone else v) ?cp \<and>
      length params =
        sum_list (map (length \<circ> Expr_params \<circ> snd) (Setter_items (Q_setter qry)))
          + length ?cp"
    by blast
  have b: "assemble (Q_where ''id = ?'' (Scalar (PStr [])) False
              (Q_set ''status'' (Plain (PStr [])) (Q_init ''users'' ''id''))) ''update''
     = Inr (''UPDATE users SET status = ? WHERE id = ?'', [PStr [], PNone])"
    by (simp add: assemble_update build_update_def Q_where_def Q_set_def Q_init_def
        Setter_add_def Setter_init_def Setter_call_def Clauser_add_def Clauser_init_def
        Clauser_call_def Joiner_call_def Joiner_init_def db_list_null_def db_update_def
        db_set_def db_join_def db_where_def Table_identifier_def)
  from a b show ?thesis by blast
qed

subsection \<open>Insert parameters\<close>

text \<open>
  C4. In insert mode the returned parameters are the parameters of the setter's
  expressions, in the setter's iteration order, with every empty string among them
  replaced by \<open>PNone\<close> and every other value kept; so no returned parameter is the
  empty string. Inserting \<^verbatim>\<open>{'name': 'Alice', 'email': ''}\<close> into a fresh builder
  gives the parameters \<^verbatim>\<open>['Alice', None]\<close>, in the order of the keys.
\<close>

theorem insert_params_no_empty_string:
  "(\<exists>sql params. assemble qry ''insert'' = Inr (sql, params) \<and>
      params = map (\<lambda>v. if v = PStr [] then PNone else v)
                 (concat (map (Expr_params \<circ> snd) (Setter_items (Q_setter qry)))) \<and>
      PStr [] \<notin> set params) \<and>
   assemble (fold (\<lambda>(k, v). Q_set k v)
               [(''name'', Plain (PStr ''Alice'')), (''email'', Plain (PStr []))]
               (Q_init ''users'' ''id'')) ''insert''
     = Inr (''INSERT INTO users (name,email) VALUES (?,?)'', [PStr ''Alice'', PNone])"
proof -
  let ?sp = "concat (map (Expr_params \<circ> snd) (Setter_items (Q_setter qry)))"
  have "assemble qry ''insert'' = Inr (fst (build_insert qry), snd (build_insert qry))"
    by (simp add: assemble_insert)
  moreover have "snd (build_insert qry) = map (\<lambda>v. if v = PStr [] then PNone else v) ?sp"
    by (simp add: snd_build_insert db_list_null_def)
  moreover have "PStr [] \<notin> set (snd (build_insert qry))"
    by (simp only: snd_build_insert list_null_no_empty not_False_eq_True)
  ultimately have a: "\<exists>sql params. assemble qry ''insert'' = Inr (sql, params) \<and>
      params = map (\<lambda>v. if v = PStr [] then PNone else v) ?sp \<and> PStr [] \<notin> set params"
    by blast
  have b: "assemble (fold (\<lambda>(k, v). Q_set k v)
               [(''name'', Plain (PStr ''Alice'')), (''email'', Plain (PStr []))]
               (Q_init ''users'' ''id'')) ''insert''
     = Inr (''INSERT INTO users (name,email) VALUES (?,?)'', [PStr ''Alice'', PNone])"
    by (simp add: assemble_insert build_insert_def Q_set_def Q_init_def Setter_add_def
        Setter_init_def Setter_call_def db_list_null_def db_insert_def db_values_def)
  from a b show ?thesis by blast
qed

subsection \<open>Where clauses and their connectors\<close>

lemma Clauser_add_nonempty: "Clauser_clauses (Clauser_add cl ps b c) \<noteq> []"
  by (simp add: Clauser_add_def Let_def)

lemma Clauser_add_first: "Clauser_clauses (Clauser_add cl ps b Clauser_init) = [cl]"
  by (simp add: Clauser_add_def Clauser_init_def)

lemma fold_Clauser_add_clauses:
  "Clauser_clauses c \<noteq> [] \<Longrightarrow>
   Clauser_clauses (fold (\<lambda>(cl, ps, b). Clauser_add cl ps b) ws c) =
     Clauser_clauses c @
       concat (map (\<lambda>(cl, ps, b). [if b then ''OR'' else ''AND'', cl]) ws)"
proof (induction ws arbitrary: c)
  case Nil
  then show ?case by simp
next
  case (Cons w ws)
  obtain cl ps b where w: "w = (cl, ps, b)" by (cases w)
  have ne: "Clauser_clauses (Clauser_add cl ps b c) \<noteq> []"
    by (rule Clauser_add_nonempty)
  have step: "Clauser_clauses (Clauser_add cl ps b c) =
                Clauser_clauses c @ [if b then ''OR'' else ''AND'', cl]"
    using Cons.prems by (simp add: Clauser_add_def Let_def)
  show ?case
    using Cons.IH [OF ne] by (simp add: w step)
qed

lemma fold_Clauser_add_params:
  "Clauser_params (fold (\<lambda>(cl, ps, b). Clauser_add cl ps b) ws c) =
     Clauser_params c @ concat (map (\<lambda>(cl, ps, b). to_list ps) ws)"
proof (induction ws arbitrary: c)
  case Nil
  then show ?case by simp
next
  case (Cons w ws)
  obtain cl ps b where w: "w = (cl, ps, b)" by (cases w)
  have step: "Clauser_params (Clauser_add cl ps b c) = Clauser_params c @ to_list ps"
    by (simp add: Clauser_add_def Let_def)
  show ?case
    using Cons.IH [of "Clauser_add cl ps b c"] by (simp add: w step)
qed

lemma fold_Clauser_add_init:
  "Clauser_clauses (fold (\<lambda>(cl, ps, b). Clauser_add cl ps b) ws Clauser_init) =
     (case ws of
        [] \<Rightarrow> []
      | (cl, ps, b) # rest \<Rightarrow>
          cl # concat (map (\<lambda>(cl, ps, b). [if b then ''OR'' else ''AND'', cl]) rest))"
proof (cases ws)
  case Nil
  then show ?thesis by (simp add: Clauser_init_def)
next
  case (Cons w rest)
  obtain cl ps b where w: "w = (cl, ps, b)" by (cases w)
  have ne: "Clauser_clauses (Clauser_add cl ps b Clauser_init) \<noteq> []"
    by (rule Clauser_add_nonempty)
  show ?thesis
    using fold_Clauser_add_clauses [OF ne, of rest]
    by (simp add: Cons w Clauser_add_first)
qed

lemma length_connector_pairs:
  "length (concat (map (\<lambda>(cl, ps, b). [f b, cl]) ws)) = 2 * length ws"
  by (induction ws) auto

lemma count_connector_pairs:
  "''AND'' \<notin> fst ` set ws \<Longrightarrow> ''OR'' \<notin> fst ` set ws \<Longrightarrow>
   length (filter (\<lambda>s. s = ''AND'' \<or> s = ''OR'')
     (concat (map (\<lambda>(cl, ps, b). [if b then ''OR'' else ''AND'', cl]) ws))) = length ws"
  by (induction ws) auto

lemma length_where_clauses:
  "length (Clauser_clauses (fold (\<lambda>(cl, ps, b). Clauser_add cl ps b) ws Clauser_init)) =
     length ws + (length ws - 1)"
  unfolding fold_Clauser_add_init
  by (cases ws) (auto simp: length_connector_pairs)

lemma count_where_connectors:
  assumes "''AND'' \<notin> fst ` set ws" and "''OR'' \<notin> fst ` set ws"
  shows "length (filter (\<lambda>s. s = ''AND'' \<or> s = ''OR'')
           (Clauser_clauses (fold (\<lambda>(cl, ps, b). Clauser_add cl ps b) ws Clauser_init))) =
         length ws - 1"
proof (cases ws)
  case Nil
  then show ?thesis by (simp add: Clauser_init_def)
next
  case (Cons w rest)
  obtain cl ps b where w: "w = (cl, ps, b)" by (cases w)
  have r: "''AND'' \<notin> fst ` set rest" "''OR'' \<notin> fst ` set rest"
    using assms Cons by auto
  have c: "cl \<noteq> ''AND''" "cl \<noteq> ''OR''"
    using assms Cons w by auto
  show ?thesis
    unfolding fold_Clauser_add_init
    using count_connector_pairs [OF r] c by (simp add: Cons w)
qed

text \<open>
  C5. After any sequence of \<open>where\<close> calls on a fresh clauser, the rendered clause
  list is the first clause followed, for each later call, by its connector and its
  clause: as many connectors as clauses but one, and none when there is no clause. The
  parameters are the given parameters alone, in order. When no clause text is itself
  \<open>AND\<close> or \<open>OR\<close>, the entries of the clause list that read \<open>AND\<close> or \<open>OR\<close> are
  that many.
\<close>

theorem where_connectors:
  "(let c = fold (\<lambda>(cl, ps, b). Clauser_add cl ps b) ws Clauser_init in
      Clauser_call c =
        (case ws of
           [] \<Rightarrow> []
         | (cl, ps, b) # rest \<Rightarrow>
             cl # concat (map (\<lambda>(cl, ps, b). [if b then ''OR'' else ''AND'', cl]) rest)) \<and>
      length (Clauser_call c) = length ws + (length ws - 1) \<and>
      Clauser_params c = concat (map (\<lambda>(cl, ps, b). to_list ps) ws) \<and>
      (''AND'' \<notin> fst ` set ws \<and> ''OR'' \<notin> fst ` set ws \<longrightarrow>
         length (filter (\<lambda>s. s = ''AND'' \<or> s = ''OR'') (Clauser_call c)) = length ws - 1))"
  unfolding Let_def Clauser_call_def
  using fold_Clauser_add_init [of ws] length_where_clauses [of ws]
    fold_Clauser_add_params [of ws Clauser_init] count_where_connectors [of ws]
  by (simp add: Clauser_init_def)

theorem where_connectors_witness:
  "''AND'' \<notin> fst ` set [(''age > ?'', Scalar (PInt 18), False),
                          (''name = ?'', Scalar (PStr ''Bob''), True),
                          (''id IN (?,?)'', Listed [PInt 1, PInt 2], False)] \<and>
   ''OR'' \<notin> fst ` set [(''age > ?'', Scalar (PInt 18), False),
                         (''name = ?'', Scalar (PStr ''Bob''), True),
                         (''id IN (?,?)'', Listed [PInt 1, PInt 2], False)] \<and>
   Clauser_call (fold (\<lambda>(cl, ps, b). Clauser_add cl ps b)
       [(''age > ?'', Scalar (PInt 18), False),
        (''name = ?'', Scalar (PStr ''Bob''), True),
        (''id IN (?,?)'', Listed [PInt 1, PInt 2], False)] Clauser_init)
     = [''age > ?'', ''OR'', ''name = ?'', ''AND'', ''id IN (?,?)''] \<and>
   length (filter (\<lambda>s. s = ''AND'' \<or> s = ''OR'')
     (Clauser_call (fold (\<lambda>(cl, ps, b). Clauser_add cl ps b)
       [(''age > ?'', Scalar (PInt 18), False),
        (''name = ?'', Scalar (PStr ''Bob''), True),
        (''id IN (?,?)'', Listed [PInt 1, PInt 2], False)] Clauser_init))) = 2"
  using where_connectors [of "[(''age > ?'', Scalar (PInt 18), False),
                          (''name = ?'', Scalar (PStr ''Bob''), True),
                          (''id IN (?,?)'', Listed [PInt 1, PInt 2], False)]"]
  by (simp add: Let_def)

subsection \<open>Joins\<close>

text \<open>
  C6. \<open>Joiner.add\<close> appends exactly three tokens to the join sequence: \<open>OUTER\<close> or
  \<open>INNER\<close> according to the flag, \<open>JOIN\<close>, and the table's identifier. The join
  condition plays no part: two calls that differ in the condition only give the same
  joiner, and the same result of \<open>assemble\<close> in every mode.
\<close>

theorem join_condition_ignored:
  "Joiner_call (Joiner_add tbl join_on outer j) =
     Joiner_call j @ [if outer then ''OUTER'' else ''INNER'', ''JOIN'', Table_identifier tbl] \<and>
   Joiner_add tbl join_on outer j = Joiner_add tbl join_on' outer j \<and>
   assemble (Q_join tbl join_on outer q) mode = assemble (Q_join tbl join_on' outer q) mode"
  by (simp add: Joiner_add_def Joiner_call_def Q_join_def)

subsection \<open>Select without columns\<close>

lemma join_Cons: "join sep (x # xs) = x @ concat (map (\<lambda>y. sep @ y) xs)"
  by (induction xs arbitrary: x) auto

lemma build_select_parts:
  "fst (build_select qry) =
     join '' '' ([''SELECT'', join '','' (Selector_call (Q_selector qry)), ''FROM'',
                  Table_identifier (Q_table qry)]
                 @ db_limit (db_order (db_where (db_join [] (Joiner_call (Q_joiner qry)))
                      (Clauser_call (Q_clauser qry))) (Orderer_call (Q_orderer qry)))
                      (Limiter_call (Q_limiter qry)))"
  by (simp add: build_select_def db_select_def db_from_def db_join_def db_where_def
      db_order_def db_limit_def)

text \<open>
  C8. When no column has been selected, the selector renders the single entry \<open>*\<close>,
  and the statement assembled in select mode starts with \<open>SELECT * FROM\<close> and the
  table's identifier.
\<close>

theorem select_wildcard:
  assumes "Selector_cols (Q_selector qry) = []"
  shows "Selector_call (Q_selector qry) = [''*''] \<and>
         (\<exists>rest. assemble qry ''select'' =
            Inr (''SELECT * FROM '' @ Table_identifier (Q_table qry) @ rest,
                 Clauser_params (Q_clauser qry)))"
proof -
  have c: "Selector_call (Q_selector qry) = [''*'']"
    using assms by (simp add: Selector_call_def)
  have "\<exists>rest. fst (build_select qry) = ''SELECT * FROM '' @ Table_identifier (Q_table qry) @ rest"
    by (simp add: build_select_parts c join_Cons)
  moreover have "snd (build_select qry) = Clauser_params (Q_clauser qry)"
    by (simp add: build_select_def Let_def)
  ultimately show ?thesis
    using c by (auto simp: assemble_select prod_eq_iff)
qed

theorem select_wildcard_witness:
  "Selector_cols (Q_selector (Q_where ''age > ?'' (Scalar (PInt 18)) False (Q_init ''users'' ''id''))) = [] \<and>
   assemble (Q_where ''age > ?'' (Scalar (PInt 18)) False (Q_init ''users'' ''id'')) ''select''
     = Inr (''SELECT * FROM users WHERE age > ?'', [PInt 18])"
  using select_wildcard [of "Q_where ''age > ?'' (Scalar (PInt 18)) False (Q_init ''users'' ''id'')"]
  by (simp add: Q_where_def Q_init_def Selector_init_def Clauser_init_def Clauser_add_def
      assemble_select build_select_def Selector_call_def Joiner_call_def Joiner_init_def
      Clauser_call_def Orderer_call_def Orderer_init_def Limiter_call_def Limiter_init_def
      db_select_def db_from_def db_join_def db_where_def db_order_def db_limit_def
      Table_identifier_def)

subsection \<open>Insert columns and placeholders\<close>






subsection \<open>Insert placeholders and parameters\<close>

lemma sum_list_all_one:
  "\<forall>x\<in>set xs. f x = (1::nat) \<Longrightarrow> sum_list (map f xs) = length xs"
  by (induction xs) auto

text \<open>
  C10, as stated: an entry whose expression has no parameter, or several, makes the
  number of placeholders differ from the number of parameters. With one entry of two
  parameters and one without parameters, the statement has two placeholders and two
  parameters.
\<close>

theorem insert_counts_can_coincide:
  "assemble (fold (\<lambda>(k, v). Q_set k v)
       [(''total'', IsExpr \<lparr>Expr_value = ''? + ?'', Expr_params = [PInt 1, PInt 2]\<rparr>),
        (''created'', IsExpr \<lparr>Expr_value = ''NOW()'', Expr_params = []\<rparr>)]
       (Q_init ''orders'' ''id'')) ''insert''
     = Inr (''INSERT INTO orders (total,created) VALUES (?,?)'', [PInt 1, PInt 2]) \<and>
   insert_loop (Setter_call (Q_setter (fold (\<lambda>(k, v). Q_set k v)
       [(''total'', IsExpr \<lparr>Expr_value = ''? + ?'', Expr_params = [PInt 1, PInt 2]\<rparr>),
        (''created'', IsExpr \<lparr>Expr_value = ''NOW()'', Expr_params = []\<rparr>)]
       (Q_init ''orders'' ''id'')))) ([], [], [])
     = ([''total'', ''created''], [''?'', ''?''], [PInt 1, PInt 2]) \<and>
   length (fst (snd (insert_loop (Setter_call (Q_setter (fold (\<lambda>(k, v). Q_set k v)
       [(''total'', IsExpr \<lparr>Expr_value = ''? + ?'', Expr_params = [PInt 1, PInt 2]\<rparr>),
        (''created'', IsExpr \<lparr>Expr_value = ''NOW()'', Expr_params = []\<rparr>)]
       (Q_init ''orders'' ''id'')))) ([], [], []))))
     = length (snd (build_insert (fold (\<lambda>(k, v). Q_set k v)
       [(''total'', IsExpr \<lparr>Expr_value = ''? + ?'', Expr_params = [PInt 1, PInt 2]\<rparr>),
        (''created'', IsExpr \<lparr>Expr_value = ''NOW()'', Expr_params = []\<rparr>)]
       (Q_init ''orders'' ''id''))))"
  by (simp add: assemble_insert build_insert_def Q_set_def Q_init_def Setter_add_def
      Setter_init_def Setter_call_def db_list_null_def db_insert_def db_values_def)

text \<open>
  C10, amended. In insert mode every setter entry contributes the placeholder \<open>?\<close> to
  the values list, whatever the value of its expression, and all the parameters of its
  expression to the returned parameters. So the number of placeholders differs from the
  number of parameters exactly when the parameter counts of the entries do not add up
  to the number of entries; this is so when one entry has no parameter or several and
  every other entry has exactly one.
\<close>

theorem insert_placeholders_vs_params:
  "case insert_loop (Setter_call (Q_setter qry)) ([], [], []) of
     (cols, vals, params) \<Rightarrow>
       vals = replicate (length (Setter_call (Q_setter qry))) ''?'' \<and>
       params = concat (map (\<lambda>(c, q). Expr_params q) (Setter_call (Q_setter qry))) \<and>
       snd (build_insert qry) = db_list_null params \<and>
       (length vals \<noteq> length (snd (build_insert qry)) \<longleftrightarrow>
          sum_list (map (\<lambda>(c, q). length (Expr_params q)) (Setter_call (Q_setter qry)))
            \<noteq> length (Setter_call (Q_setter qry))) \<and>
       (Setter_call (Q_setter qry) = xs @ (k, e) # ys \<and>
        length (Expr_params e) \<noteq> 1 \<and>
        (\<forall>p\<in>set (xs @ ys). length (Expr_params (snd p)) = 1) \<longrightarrow>
          length vals \<noteq> length (snd (build_insert qry)))"
proof -
  let ?items = "Setter_call (Q_setter qry)"
  have f: "(\<lambda>(c, q). Expr_params q) = Expr_params \<circ> snd"
    by (simp add: fun_eq_iff)
  have g: "(\<lambda>(c, q). length (Expr_params q)) = length \<circ> (Expr_params \<circ> snd)"
    by (simp add: fun_eq_iff)
  have l: "length (snd (build_insert qry)) =
             sum_list (map (length \<circ> (Expr_params \<circ> snd)) ?items)"
    by (simp add: snd_build_insert db_list_null_def length_concat_sum Setter_call_def)
  have il: "insert_loop ?items ([], [], []) =
              (map fst ?items, replicate (length ?items) ''?'',
               concat (map (Expr_params \<circ> snd) ?items))"
    by (simp add: insert_loop_eq)
  have one: "sum_list (map (length \<circ> (Expr_params \<circ> snd)) ?items) \<noteq> length ?items"
    if h: "?items = xs @ (k, e) # ys" "length (Expr_params e) \<noteq> 1"
          "\<forall>p\<in>set (xs @ ys). length (Expr_params (snd p)) = 1"
  proof -
    have "sum_list (map (length \<circ> (Expr_params \<circ> snd)) xs) = length xs"
      using h(3) by (intro sum_list_all_one) simp
    moreover have "sum_list (map (length \<circ> (Expr_params \<circ> snd)) ys) = length ys"
      using h(3) by (intro sum_list_all_one) simp
    ultimately show ?thesis
      using h(2) by (simp add: h(1))
  qed
  have s: "snd (build_insert qry) = db_list_null (concat (map (Expr_params \<circ> snd) ?items))"
    by (simp add: snd_build_insert Setter_call_def)
  show ?thesis
    unfolding f g il
    using one s l by (auto simp: eq_commute)
qed

theorem insert_placeholders_vs_params_witness:
  "Setter_call (Q_setter (fold (\<lambda>(k, v). Q_set k v)
       [(''name'', Plain (PStr ''Alice'')),
        (''created'', IsExpr \<lparr>Expr_value = ''NOW()'', Expr_params = []\<rparr>)]
       (Q_init ''users'' ''id'')))
     = [(''name'', \<lparr>Expr_value = ''?'', Expr_params = [PStr ''Alice'']\<rparr>)]
         @ (''created'', \<lparr>Expr_value = ''NOW()'', Expr_params = []\<rparr>) # [] \<and>
   length (Expr_params \<lparr>Expr_value = ''NOW()'', Expr_params = []\<rparr>) \<noteq> 1 \<and>
   list_all (\<lambda>p. length (Expr_params (snd p)) = 1)
     ([(''name'', \<lparr>Expr_value = ''?'', Expr_params = [PStr ''Alice'']\<rparr>)] @ []) \<and>
   assemble (fold (\<lambda>(k, v). Q_set k v)
       [(''name'', Plain (PStr ''Alice'')),
        (''created'', IsExpr \<lparr>Expr_value = ''NOW()'', Expr_params = []\<rparr>)]
       (Q_init ''users'' ''id'')) ''insert''
     = Inr (''INSERT INTO users (name,created) VALUES (?,?)'', [PStr ''Alice''])"
  using insert_placeholders_vs_params [of "fold (\<lambda>(k, v). Q_set k v)
       [(''name'', Plain (PStr ''Alice'')),
        (''created'', IsExpr \<lparr>Expr_value = ''NOW()'', Expr_params = []\<rparr>)]
       (Q_init ''users'' ''id'')"
     "[(''name'', \<lparr>Expr_value = ''?'', Expr_params = [PStr ''Alice'']\<rparr>)]"
     "''created''" "\<lparr>Expr_value = ''NOW()'', Expr_params = []\<rparr>" "[]"]
  by (simp add: assemble_insert build_insert_def Q_set_def Q_init_def Setter_add_def
      Setter_init_def Setter_call_def db_list_null_def db_insert_def db_values_def)

subsection \<open>Assembling twice\<close>

lemma db_from_h_eq:
  "db_from_h p tbl h = h\<lparr>heap_strs := (heap_strs h)(p := db_from (heap_strs h p) tbl)\<rparr>"
  by (simp add: db_from_h_def db_from_def extend_strs_def)

lemma db_join_h_eq:
  "db_join_h p a h = h\<lparr>heap_strs := (heap_strs h)(p := db_join (heap_strs h p) (heap_strs h a))\<rparr>"
  by (simp add: db_join_h_def db_join_def extend_strs_def)

lemma db_where_h_eq:
  "db_where_h p a h = h\<lparr>heap_strs := (heap_strs h)(p := db_where (heap_strs h p) (heap_strs h a))\<rparr>"
  by (simp add: db_where_h_def db_where_def extend_strs_def)

lemma db_order_h_eq:
  "db_order_h p a h = h\<lparr>heap_strs := (heap_strs h)(p := db_order (heap_strs h p) (heap_strs h a))\<rparr>"
  by (simp add: db_order_h_def db_order_def extend_strs_def)

lemma db_limit_h_eq:
  "db_limit_h p a h = h\<lparr>heap_strs := (heap_strs h)(p := db_limit (heap_strs h p) (heap_strs h a))\<rparr>"
  by (simp add: db_limit_h_def db_limit_def extend_strs_def)

lemma db_values_h_eq:
  "db_values_h p a h = h\<lparr>heap_strs := (heap_strs h)(p := db_values (heap_strs h p) (heap_strs h a))\<rparr>"
  by (simp add: db_values_h_def db_values_def extend_strs_def)

lemma db_set_h_eq:
  "db_set_h p a h = h\<lparr>heap_strs := (heap_strs h)(p := db_set (heap_strs h p) (heap_strs h a))\<rparr>"
  by (simp add: db_set_h_def db_set_def extend_strs_def)

lemma build_select_h_spec:
  assumes "allocated h r"
  shows "case build_select_h r h of ((sql, p), h') \<Rightarrow>
           (sql, heap_vals h' p) = build_select (the_Q h r) \<and>
           same_below (heap_next h) h h' \<and> heap_next h \<le> heap_next h' \<and> p < heap_next h'"
proof -
  from assms have ne:
    "QR_cols r \<noteq> heap_next h" "QR_joins r \<noteq> heap_next h" "QR_clauses r \<noteq> heap_next h"
    "QR_orders r \<noteq> heap_next h" "QR_limits r \<noteq> heap_next h"
    "QR_cols r \<noteq> Suc (heap_next h)" "QR_joins r \<noteq> Suc (heap_next h)"
    "QR_clauses r \<noteq> Suc (heap_next h)" "QR_orders r \<noteq> Suc (heap_next h)"
    "QR_limits r \<noteq> Suc (heap_next h)" "QR_params r < heap_next h"
    by (auto simp: allocated_def)
  show ?thesis
  proof (cases "heap_strs h (QR_cols r) = []")
    case True
    then show ?thesis
      using ne
      by (simp add: build_select_h_def build_select_def Selector_call_h_def Selector_call_def
          db_select_h_def db_select_def db_from_h_eq db_join_h_eq db_where_h_eq db_order_h_eq db_limit_h_eq
          new_strs_def the_Q_def same_below_def
          Joiner_call_def Clauser_call_def Orderer_call_def Limiter_call_def Let_def)
  next
    case False
    then show ?thesis
      using ne
      by (simp add: build_select_h_def build_select_def Selector_call_h_def Selector_call_def
          db_select_h_def db_select_def db_from_h_eq db_join_h_eq db_where_h_eq db_order_h_eq db_limit_h_eq
          new_strs_def the_Q_def same_below_def
          Joiner_call_def Clauser_call_def Orderer_call_def Limiter_call_def Let_def)
  qed
qed


lemma build_delete_h_spec:
  assumes "allocated h r"
  shows "case build_delete_h r h of ((sql, p), h') \<Rightarrow>
           (sql, heap_vals h' p) = build_delete (the_Q h r) \<and>
           same_below (heap_next h) h h' \<and> heap_next h \<le> heap_next h' \<and> p < heap_next h'"
proof -
  from assms have ne:
    "QR_joins r \<noteq> heap_next h" "QR_clauses r \<noteq> heap_next h" "QR_params r < heap_next h"
    by (auto simp: allocated_def)
  show ?thesis
    using ne
    by (simp add: build_delete_h_def build_delete_def db_delete_h_def db_delete_def
        db_from_h_eq db_join_h_eq db_where_h_eq new_strs_def the_Q_def same_below_def
        Joiner_call_def Clauser_call_def Let_def)
qed

lemma insert_loop_h_eq:
  assumes "cols \<noteq> vals" and "\<forall>p\<in>set items. ExprR_params (snd p) \<noteq> params"
  shows "heap_strs (insert_loop_h items cols vals params h) =
           (heap_strs h)
             (cols := heap_strs h cols @ map fst items,
              vals := heap_strs h vals @ replicate (length items) ''?'') \<and>
         heap_vals (insert_loop_h items cols vals params h) =
           (heap_vals h)
             (params := heap_vals h params @
                concat (map (\<lambda>p. heap_vals h (ExprR_params (snd p))) items)) \<and>
         heap_next (insert_loop_h items cols vals params h) = heap_next h"
  using assms
proof (induction items arbitrary: h)
  case Nil
  then show ?case by simp
next
  case (Cons it items)
  obtain c q where it: "it = (c, q)" by (cases it)
  let ?h3 = "extend_vals params (heap_vals h (ExprR_params q))
               (extend_strs vals [''?''] (extend_strs cols [c] h))"
  have q: "ExprR_params q \<noteq> params"
    using Cons.prems(2) it by simp
  have rest: "\<forall>p\<in>set items. ExprR_params (snd p) \<noteq> params"
    using Cons.prems(2) by simp
  have m: "map (\<lambda>p. heap_vals ?h3 (ExprR_params (snd p))) items =
           map (\<lambda>p. heap_vals h (ExprR_params (snd p))) items"
    using rest by (simp add: extend_vals_def extend_strs_def)
  have step: "insert_loop_h (it # items) cols vals params h =
              insert_loop_h items cols vals params ?h3"
    by (simp add: it Let_def extend_strs_def extend_vals_def)
  show ?case
    unfolding step
    using Cons.IH [OF Cons.prems(1) rest, of ?h3] Cons.prems(1) q
    unfolding m
    by (auto simp: it extend_vals_def extend_strs_def replicate_app_Cons_same fun_eq_iff)
qed

lemma update_loop_h_eq:
  assumes "\<forall>p\<in>set items. ExprR_params (snd p) \<noteq> vals"
  shows "heap_strs (update_loop_h items cols vals h) =
           (heap_strs h)
             (cols := heap_strs h cols @ map (\<lambda>(c, q). c @ '' = '' @ ExprR_value q) items) \<and>
         heap_vals (update_loop_h items cols vals h) =
           (heap_vals h)
             (vals := heap_vals h vals @
                concat (map (\<lambda>p. heap_vals h (ExprR_params (snd p))) items)) \<and>
         heap_next (update_loop_h items cols vals h) = heap_next h"
  using assms
proof (induction items arbitrary: h)
  case Nil
  then show ?case by simp
next
  case (Cons it items)
  obtain c q where it: "it = (c, q)" by (cases it)
  let ?h2 = "extend_vals vals (heap_vals h (ExprR_params q))
               (extend_strs cols [c @ '' = '' @ ExprR_value q] h)"
  have q: "ExprR_params q \<noteq> vals"
    using Cons.prems it by simp
  have rest: "\<forall>p\<in>set items. ExprR_params (snd p) \<noteq> vals"
    using Cons.prems by simp
  have m: "map (\<lambda>p. heap_vals ?h2 (ExprR_params (snd p))) items =
           map (\<lambda>p. heap_vals h (ExprR_params (snd p))) items"
    using rest by (simp add: extend_vals_def extend_strs_def)
  have step: "update_loop_h (it # items) cols vals h = update_loop_h items cols vals ?h2"
    by (simp add: it Let_def extend_strs_def extend_vals_def)
  show ?case
    unfolding step
    using Cons.IH [OF rest, of ?h2] q
    unfolding m
    by (auto simp: it extend_vals_def extend_strs_def fun_eq_iff)
qed

lemma the_Q_items_keys:
  "map fst (Setter_items (Q_setter (the_Q h r))) = map fst (QR_items r)"
  by (simp add: the_Q_def comp_def case_prod_unfold)

lemma the_Q_items_params:
  "concat (map (Expr_params \<circ> snd) (Setter_items (Q_setter (the_Q h r)))) =
     concat (map (\<lambda>p. heap_vals h (ExprR_params (snd p))) (QR_items r))"
  by (simp add: the_Q_def comp_def case_prod_unfold)

lemma the_Q_items_assigns:
  "map (\<lambda>(c, q). c @ '' = '' @ Expr_value q) (Setter_items (Q_setter (the_Q h r))) =
     map (\<lambda>(c, q). c @ '' = '' @ ExprR_value q) (QR_items r)"
  by (simp add: the_Q_def comp_def case_prod_unfold)

lemma allocated_items:
  "allocated h r \<Longrightarrow> \<forall>p\<in>set (QR_items r). ExprR_params (snd p) < heap_next h"
  by (auto simp: allocated_def list_all_iff)

lemma build_insert_h_spec:
  assumes "allocated h r"
  shows "case build_insert_h r h of ((sql, p), h') \<Rightarrow>
           (sql, heap_vals h' p) = build_insert (the_Q h r) \<and>
           same_below (heap_next h) h h' \<and> heap_next h \<le> heap_next h' \<and> p < heap_next h'"
proof -
  let ?n = "heap_next h"
  let ?h3 = "h\<lparr>heap_strs := (heap_strs h)(?n := [], Suc ?n := []),
                heap_vals := (heap_vals h)(Suc (Suc ?n) := []),
                heap_next := Suc (Suc (Suc ?n))\<rparr>"
  let ?h4 = "insert_loop_h (QR_items r) ?n (Suc ?n) (Suc (Suc ?n)) ?h3"
  have fresh: "\<forall>p\<in>set (QR_items r). ExprR_params (snd p) \<noteq> Suc (Suc ?n)"
    using allocated_items [OF assms] by auto
  have old: "map (\<lambda>p. heap_vals ?h3 (ExprR_params (snd p))) (QR_items r) =
             map (\<lambda>p. heap_vals h (ExprR_params (snd p))) (QR_items r)"
    using allocated_items [OF assms] by auto
  have loop:
    "heap_strs ?h4 = (heap_strs h)
       (?n := map fst (QR_items r), Suc ?n := replicate (length (QR_items r)) ''?'')"
    "heap_vals ?h4 = (heap_vals h)
       (Suc (Suc ?n) := concat (map (\<lambda>p. heap_vals h (ExprR_params (snd p))) (QR_items r)))"
    "heap_next ?h4 = Suc (Suc (Suc ?n))"
    using insert_loop_h_eq [of ?n "Suc ?n" "QR_items r" "Suc (Suc ?n)" ?h3, OF _ fresh]
    unfolding old by (auto simp: fun_eq_iff)
  have unfold: "build_insert_h r h =
      (case db_list_null_h (Suc (Suc ?n)) ?h4 of (params, h5) \<Rightarrow>
       case db_insert_h (QR_table r) ?n h5 of (parts, h6) \<Rightarrow>
         (let h7 = db_values_h parts (Suc ?n) h6
          in ((join '' '' (heap_strs h7 parts), params), h7)))"
    by (simp add: build_insert_h_def new_strs_def new_vals_def Let_def)
  have pure: "build_insert (the_Q h r) =
      (join '' '' (db_values (db_insert (QR_table r) (map fst (QR_items r)))
                     (replicate (length (QR_items r)) ''?'')),
       db_list_null (concat (map (\<lambda>p. heap_vals h (ExprR_params (snd p))) (QR_items r))))"
    using the_Q_items_keys [of h r] the_Q_items_params [of h r]
    by (simp add: build_insert_def insert_loop_eq Setter_call_def Let_def)
      (simp add: the_Q_def)
  show ?thesis
    unfolding unfold pure
    by (simp add: db_list_null_h_def db_insert_h_def db_insert_def db_values_h_eq
        new_vals_def new_strs_def loop same_below_def)
qed

lemma build_update_h_spec:
  assumes "allocated h r"
  shows "case build_update_h r h of ((sql, p), h') \<Rightarrow>
           (sql, heap_vals h' p) = build_update (the_Q h r) \<and>
           same_below (heap_next h) h h' \<and> heap_next h \<le> heap_next h' \<and> p < heap_next h'"
proof -
  let ?n = "heap_next h"
  let ?h2 = "h\<lparr>heap_strs := (heap_strs h)(?n := []),
                heap_vals := (heap_vals h)(Suc ?n := []),
                heap_next := Suc (Suc ?n)\<rparr>"
  let ?h3 = "update_loop_h (QR_items r) ?n (Suc ?n) ?h2"
  from assms have ne:
    "QR_joins r \<noteq> ?n" "QR_clauses r \<noteq> ?n" "QR_params r \<noteq> Suc ?n"
    "QR_joins r \<noteq> Suc (Suc ?n)" "QR_clauses r \<noteq> Suc (Suc ?n)"
    "QR_params r \<noteq> Suc (Suc (Suc ?n))"
    by (auto simp: allocated_def)
  have fresh: "\<forall>p\<in>set (QR_items r). ExprR_params (snd p) \<noteq> Suc ?n"
    using allocated_items [OF assms] by auto
  have old: "map (\<lambda>p. heap_vals ?h2 (ExprR_params (snd p))) (QR_items r) =
             map (\<lambda>p. heap_vals h (ExprR_params (snd p))) (QR_items r)"
    using allocated_items [OF assms] by auto
  have loop:
    "heap_strs ?h3 = (heap_strs h)
       (?n := map (\<lambda>(c, q). c @ '' = '' @ ExprR_value q) (QR_items r))"
    "heap_vals ?h3 = (heap_vals h)
       (Suc ?n := concat (map (\<lambda>p. heap_vals h (ExprR_params (snd p))) (QR_items r)))"
    "heap_next ?h3 = Suc (Suc ?n)"
    using update_loop_h_eq [of "QR_items r" "Suc ?n" ?n ?h2, OF fresh]
    unfolding old by (auto simp: fun_eq_iff)
  have unfold: "build_update_h r h =
      (case db_update_h (QR_table r) ?h3 of (parts, h4) \<Rightarrow>
         (let h5 = db_set_h parts ?n h4;
              h6 = db_join_h parts (QR_joins r) h5;
              h7 = db_where_h parts (QR_clauses r) h6
          in case db_list_null_h (QR_params r) h7 of (params, h8) \<Rightarrow>
             case new_vals (heap_vals h8 (Suc ?n) @ heap_vals h8 params) h8 of (res, h9) \<Rightarrow>
               ((join '' '' (heap_strs h9 parts), res), h9)))"
    by (simp add: build_update_h_def new_strs_def new_vals_def Let_def)
  have pure: "build_update (the_Q h r) =
      (join '' '' (db_where (db_join (db_set (db_update (QR_table r))
                     (map (\<lambda>(c, q). c @ '' = '' @ ExprR_value q) (QR_items r)))
                     (heap_strs h (QR_joins r))) (heap_strs h (QR_clauses r))),
       concat (map (\<lambda>p. heap_vals h (ExprR_params (snd p))) (QR_items r)) @
         db_list_null (heap_vals h (QR_params r)))"
    using the_Q_items_assigns [of h r] the_Q_items_params [of h r]
    by (simp add: build_update_def update_loop_eq Setter_call_def Let_def
        Joiner_call_def Clauser_call_def)
      (simp add: the_Q_def)
  show ?thesis
    unfolding unfold pure
    using ne
    by (simp add: db_list_null_h_def db_update_h_def db_update_def db_set_h_eq db_join_h_eq
        db_where_h_eq new_vals_def new_strs_def loop same_below_def Let_def)
qed

lemma the_Q_same:
  "allocated h r \<Longrightarrow> same_below (heap_next h) h h' \<Longrightarrow> the_Q h' r = the_Q h r"
  by (auto simp: allocated_def same_below_def the_Q_def list_all_iff)

lemma allocated_mono:
  "allocated h r \<Longrightarrow> heap_next h \<le> heap_next h' \<Longrightarrow> allocated h' r"
  by (auto simp: allocated_def list_all_iff)

lemma same_below_trans:
  "same_below n h h1 \<Longrightarrow> same_below m h1 h2 \<Longrightarrow> n \<le> m \<Longrightarrow> same_below n h h2"
  by (auto simp: same_below_def)

lemma builder_twice:
  assumes spec: "\<And>h. allocated h r \<Longrightarrow>
      (case f r h of ((sql, p), h') \<Rightarrow>
         (sql, heap_vals h' p) = g (the_Q h r) \<and>
         same_below (heap_next h) h h' \<and> heap_next h \<le> heap_next h' \<and> p < heap_next h')"
    and a: "allocated h r"
  shows "case f r h of ((sql1, p1), h1) \<Rightarrow>
         case f r h1 of ((sql2, p2), h2) \<Rightarrow>
           sql1 = sql2 \<and> heap_vals h1 p1 = heap_vals h2 p2 \<and>
           heap_vals h2 p1 = heap_vals h2 p2 \<and>
           g (the_Q h r) = (sql1, heap_vals h1 p1) \<and>
           the_Q h1 r = the_Q h r \<and> the_Q h2 r = the_Q h r \<and>
           same_below (heap_next h) h h1 \<and> same_below (heap_next h) h h2"
proof -
  obtain sql1 p1 h1 where r1: "f r h = ((sql1, p1), h1)"
    by (metis surj_pair)
  obtain sql2 p2 h2 where r2: "f r h1 = ((sql2, p2), h2)"
    by (metis surj_pair)
  have s1: "(sql1, heap_vals h1 p1) = g (the_Q h r)" "same_below (heap_next h) h h1"
    "heap_next h \<le> heap_next h1" "p1 < heap_next h1"
    using spec [OF a] by (simp_all add: r1)
  have a1: "allocated h1 r"
    using a s1(3) by (rule allocated_mono)
  have s2: "(sql2, heap_vals h2 p2) = g (the_Q h1 r)" "same_below (heap_next h1) h1 h2"
    "heap_next h1 \<le> heap_next h2"
    using spec [OF a1] by (simp_all add: r2)
  have q1: "the_Q h1 r = the_Q h r"
    using a s1(2) by (rule the_Q_same)
  have q2: "the_Q h2 r = the_Q h1 r"
    using a1 s2(2) by (rule the_Q_same)
  have keep: "heap_vals h2 p1 = heap_vals h1 p1"
    using s2(2) s1(4) by (simp add: same_below_def)
  have sb: "same_below (heap_next h) h h2"
    using s1(2) s2(2) s1(3) by (rule same_below_trans)
  have "(sql1, heap_vals h1 p1) = (sql2, heap_vals h2 p2)"
    using s1(1) s2(1) q1 by simp
  then show ?thesis
    using s1(1,2) q1 q2 keep sb by (simp add: r1 r2)
qed

lemma assemble_h_cases:
  "assemble_h qry mode h =
     (if mode = ''select'' then (case build_select_h qry h of (res, h') \<Rightarrow> (Inr res, h'))
      else if mode = ''insert'' then (case build_insert_h qry h of (res, h') \<Rightarrow> (Inr res, h'))
      else if mode = ''update'' then (case build_update_h qry h of (res, h') \<Rightarrow> (Inr res, h'))
      else if mode = ''delete'' then (case build_delete_h qry h of (res, h') \<Rightarrow> (Inr res, h'))
      else (Inl (AttributeError (''_build_'' @ mode)), h))"
  by (simp add: assemble_h_def db_getattr_h_def)

lemma assemble_twice_builder:
  assumes tw: "case f r h of ((sql1, p1), h1) \<Rightarrow>
         case f r h1 of ((sql2, p2), h2) \<Rightarrow>
           sql1 = sql2 \<and> heap_vals h1 p1 = heap_vals h2 p2 \<and>
           heap_vals h2 p1 = heap_vals h2 p2 \<and>
           g (the_Q h r) = (sql1, heap_vals h1 p1) \<and>
           the_Q h1 r = the_Q h r \<and> the_Q h2 r = the_Q h r \<and>
           same_below (heap_next h) h h1 \<and> same_below (heap_next h) h h2"
    and am: "\<And>h. assemble_h r mode h = (case f r h of (res, h') \<Rightarrow> (Inr res, h'))"
    and ap: "assemble (the_Q h r) mode = Inr (g (the_Q h r))"
  shows "case assemble_h r mode h of (res1, h1) \<Rightarrow>
         case assemble_h r mode h1 of (res2, h2) \<Rightarrow>
           (\<exists>sql p1 p2. res1 = Inr (sql, p1) \<and> res2 = Inr (sql, p2) \<and>
              heap_vals h1 p1 = heap_vals h2 p2 \<and> heap_vals h2 p1 = heap_vals h2 p2 \<and>
              assemble (the_Q h r) mode = Inr (sql, heap_vals h1 p1)) \<and>
           the_Q h1 r = the_Q h r \<and> the_Q h2 r = the_Q h r \<and>
           same_below (heap_next h) h h1 \<and> same_below (heap_next h) h h2"
proof -
  obtain sql1 p1 h1 where r1: "f r h = ((sql1, p1), h1)"
    by (metis surj_pair)
  obtain sql2 p2 h2 where r2: "f r h1 = ((sql2, p2), h2)"
    by (metis surj_pair)
  show ?thesis
    using tw by (simp add: am ap r1 r2)
qed

text \<open>
  C7. On a heap in which the lists of the builder are allocated, and for each of the
  four modes, assembling twice in succession gives the same statement text and
  parameter lists with the same contents; the value of the builder read from the heap
  after either assembly is its value before, and no list that existed before is
  changed. The result is the one of the pure translator on the builder's value.
\<close>

theorem assemble_twice:
  assumes "allocated h r" and "mode \<in> set recognized_modes"
  shows "case assemble_h r mode h of (res1, h1) \<Rightarrow>
         case assemble_h r mode h1 of (res2, h2) \<Rightarrow>
           (\<exists>sql p1 p2. res1 = Inr (sql, p1) \<and> res2 = Inr (sql, p2) \<and>
              heap_vals h1 p1 = heap_vals h2 p2 \<and> heap_vals h2 p1 = heap_vals h2 p2 \<and>
              assemble (the_Q h r) mode = Inr (sql, heap_vals h1 p1)) \<and>
           the_Q h1 r = the_Q h r \<and> the_Q h2 r = the_Q h r \<and>
           same_below (heap_next h) h h1 \<and> same_below (heap_next h) h h2"
proof -
  consider "mode = ''select''" | "mode = ''insert''" | "mode = ''update''" | "mode = ''delete''"
    using assms(2) by (auto simp: recognized_modes_def)
  then show ?thesis
  proof cases
    case 1
    show ?thesis
      unfolding 1
      by (rule assemble_twice_builder [where f = build_select_h and g = build_select])
        (rule builder_twice [where f = build_select_h and g = build_select and r = r and h = h,
            OF build_select_h_spec assms(1)],
          assumption, simp add: assemble_h_cases, rule assemble_select)
  next
    case 2
    show ?thesis
      unfolding 2
      by (rule assemble_twice_builder [where f = build_insert_h and g = build_insert])
        (rule builder_twice [where f = build_insert_h and g = build_insert and r = r and h = h,
            OF build_insert_h_spec assms(1)],
          assumption, simp add: assemble_h_cases, rule assemble_insert)
  next
    case 3
    show ?thesis
      unfolding 3
      by (rule assemble_twice_builder [where f = build_update_h and g = build_update])
        (rule builder_twice [where f = build_update_h and g = build_update and r = r and h = h,
            OF build_update_h_spec assms(1)],
          assumption, simp add: assemble_h_cases, rule assemble_update)
  next
    case 4
    show ?thesis
      unfolding 4
      by (rule assemble_twice_builder [where f = build_delete_h and g = build_delete])
        (rule builder_twice [where f = build_delete_h and g = build_delete and r = r and h = h,
            OF build_delete_h_spec assms(1)],
          assumption, simp add: assemble_h_cases, rule assemble_delete)
  qed
qed

theorem assemble_twice_witness:
  "(let h = \<lparr>heap_strs = (\<lambda>a. [])(0 := [''id'', ''name''], 2 := [''id = ?'']),
             heap_vals = (\<lambda>a. [])(3 := [PInt 5], 6 := [PStr ''active'']),
             heap_next = 7\<rparr>;
        r = \<lparr>QR_table = \<lparr>Table_name = ''users'', Table_pk = ''id'', Table_alias = []\<rparr>,
             QR_cols = 0, QR_joins = 1, QR_clauses = 2, QR_params = 3, QR_orders = 4,
             QR_limits = 5,
             QR_items = [(''status'', \<lparr>ExprR_value = ''?'', ExprR_params = 6\<rparr>)]\<rparr>;
        run1 = assemble_h r ''update'' h;
        run2 = assemble_h r ''update'' (snd run1)
    in allocated h r \<and> ''update'' \<in> set recognized_modes \<and>
       (\<exists>p1 p2.
          fst run1 = Inr (''UPDATE users SET status = ? WHERE id = ?'', p1) \<and>
          fst run2 = Inr (''UPDATE users SET status = ? WHERE id = ?'', p2) \<and>
          heap_vals (snd run1) p1 = [PStr ''active'', PInt 5] \<and>
          heap_vals (snd run2) p2 = [PStr ''active'', PInt 5]) \<and>
       the_Q (snd run1) r = the_Q h r \<and> the_Q (snd run2) r = the_Q h r)"
proof -
  let ?h = "\<lparr>heap_strs = (\<lambda>a. [])(0 := [''id'', ''name''], 2 := [''id = ?'']),
             heap_vals = (\<lambda>a. [])(3 := [PInt 5], 6 := [PStr ''active'']),
             heap_next = 7\<rparr>"
  let ?r = "\<lparr>QR_table = \<lparr>Table_name = ''users'', Table_pk = ''id'', Table_alias = []\<rparr>,
             QR_cols = 0, QR_joins = 1, QR_clauses = 2, QR_params = 3, QR_orders = 4,
             QR_limits = 5,
             QR_items = [(''status'', \<lparr>ExprR_value = ''?'', ExprR_params = 6\<rparr>)]\<rparr>"
  have a: "allocated ?h ?r"
    by (simp add: allocated_def)
  have m: "''update'' \<in> set recognized_modes"
    by (simp add: recognized_modes_def)
  have pure: "assemble (the_Q ?h ?r) ''update'' =
                Inr (''UPDATE users SET status = ? WHERE id = ?'', [PStr ''active'', PInt 5])"
    by (simp add: assemble_update build_update_def the_Q_def Setter_call_def Joiner_call_def
        Clauser_call_def db_update_def db_set_def db_join_def db_where_def db_list_null_def
        Table_identifier_def)
  obtain res1 h1 where r1: "assemble_h ?r ''update'' ?h = (res1, h1)"
    by (metis surj_pair)
  obtain res2 h2 where r2: "assemble_h ?r ''update'' h1 = (res2, h2)"
    by (metis surj_pair)
  have "(\<exists>sql p1 p2. res1 = Inr (sql, p1) \<and> res2 = Inr (sql, p2) \<and>
              heap_vals h1 p1 = heap_vals h2 p2 \<and> heap_vals h2 p1 = heap_vals h2 p2 \<and>
              assemble (the_Q ?h ?r) ''update'' = Inr (sql, heap_vals h1 p1)) \<and>
           the_Q h1 ?r = the_Q ?h ?r \<and> the_Q h2 ?r = the_Q ?h ?r"
    using assemble_twice [OF a m] unfolding r1 prod.case r2 by blast
  then have "(\<exists>p1 p2.
          res1 = Inr (''UPDATE users SET status = ? WHERE id = ?'', p1) \<and>
          res2 = Inr (''UPDATE users SET status = ? WHERE id = ?'', p2) \<and>
          heap_vals h1 p1 = [PStr ''active'', PInt 5] \<and>
          heap_vals h2 p2 = [PStr ''active'', PInt 5]) \<and>
       the_Q h1 ?r = the_Q ?h ?r \<and> the_Q h2 ?r = the_Q ?h ?r"
    unfolding pure by force
  then show ?thesis
    unfolding Let_def r1 snd_conv fst_conv r2 using a m by blast
qed

end
